theory Spec2Isabelle
  imports Complex_Main "HOL-Library.Multiset"
begin

section \<open>Principal component analysis of a data table\<close>

text \<open>
  The notebook \<^verbatim>\<open>Day2_3-Dimensionality-Reduction.ipynb\<close> runs one numerical pipeline:
  \<^verbatim>\<open>
  X_std = StandardScaler().fit_transform(iris.data)
  \<Sigma> = np.cov(X_std.T)
  evals, evecs = np.linalg.eig(\<Sigma>)
  total = evals.sum()
  variance_explained = 100 * np.sort(evals)[::-1] / total
  ... np.r_[0, variance_explained.cumsum()]
  W = evecs[:, :2]
  Y = X_std @ W
  pca = PCA(n_components=3, whiten=True).fit(iris.data)
  X_pca = pca.transform(iris.data)
  \<close>

  A two-dimensional array is a list of rows; \<open>is_matrix n d A\<close> says that \<open>A\<close> has
  \<open>n\<close> rows of length \<open>d\<close>, which every array has by construction. Array entries are
  real numbers: the arithmetic of the model is exact. The program computes in 64-bit
  floating point and reaches the values of the model only up to rounding; no theorem
  here says that a floating-point result is exactly some number. Where numpy would divide by zero and produce \<^verbatim>\<open>nan\<close> or \<^verbatim>\<open>inf\<close> (a table
  with fewer than two rows in \<^verbatim>\<open>np.cov\<close>, eigenvalues that sum to zero), the theorems
  carry a hypothesis that excludes the case.
\<close>

subsection \<open>Arrays\<close>

type_synonym vec = "real list"
type_synonym matrix = "real list list"

datatype np_error = ValueError

definition is_matrix :: "nat \<Rightarrow> nat \<Rightarrow> matrix \<Rightarrow> bool" where
  "is_matrix n d A = (length A = n \<and> list_all (\<lambda>r. length r = d) A)"

definition ncols :: "matrix \<Rightarrow> nat" where
  "ncols A = (case A of [] \<Rightarrow> 0 | r # _ \<Rightarrow> length r)"

text \<open>\<^verbatim>\<open>A[:, j]\<close>\<close>

definition column :: "matrix \<Rightarrow> nat \<Rightarrow> vec" where
  "column A j = map (\<lambda>r. r ! j) A"

text \<open>\<^verbatim>\<open>A.T\<close>\<close>

definition T :: "matrix \<Rightarrow> matrix" where
  "T A = map (column A) [0..<ncols A]"

definition dot :: "vec \<Rightarrow> vec \<Rightarrow> real" where
  "dot u v = sum_list (map2 (*) u v)"

definition matvec :: "matrix \<Rightarrow> vec \<Rightarrow> vec" where
  "matvec A v = map (\<lambda>r. dot r v) A"

text \<open>
  \<^verbatim>\<open>A @ B\<close>: the rows of \<open>A\<close> against the columns of \<open>B\<close>; numpy raises
  \<^verbatim>\<open>ValueError\<close> when the inner dimensions differ.
\<close>

definition matmul :: "matrix \<Rightarrow> matrix \<Rightarrow> np_error + matrix" where
  "matmul A B =
     (if ncols A = length B
      then Inr (map (\<lambda>r. map (\<lambda>k. dot r (column B k)) [0..<ncols B]) A)
      else Inl ValueError)"

definition identity :: "nat \<Rightarrow> matrix" where
  "identity d = map (\<lambda>i. map (\<lambda>j. if i = j then 1 else 0) [0..<d]) [0..<d]"

definition trace :: "matrix \<Rightarrow> real" where
  "trace A = sum_list (map (\<lambda>i. A ! i ! i) [0..<length A])"

subsection \<open>Standardization\<close>

definition mean :: "vec \<Rightarrow> real" where
  "mean xs = sum_list xs / real (length xs)"

text \<open>The population variance (division by the number of observations).\<close>

definition var :: "vec \<Rightarrow> real" where
  "var xs = mean (map (\<lambda>x. (x - mean xs)\<^sup>2) xs)"

text \<open>
  Library routine (scikit-learn \<^verbatim>\<open>StandardScaler\<close>), modelled from its documentation:
  \<^verbatim>\<open>z = (x - u) / s\<close> with \<open>u\<close> the mean and \<open>s\<close> the population standard deviation of
  the feature; a standard deviation of zero is replaced by one
  (\<^verbatim>\<open>_handle_zeros_in_scale\<close>), so a constant feature becomes a column of zeros.
  The formula is taken over the reals; the library evaluates it in floating point.
\<close>

definition handle_zeros_in_scale :: "real \<Rightarrow> real" where
  "handle_zeros_in_scale s = (if s = 0 then 1 else s)"

definition scaler_mean :: "matrix \<Rightarrow> vec" where
  "scaler_mean X = map (\<lambda>j. mean (column X j)) [0..<ncols X]"

definition scaler_scale :: "matrix \<Rightarrow> vec" where
  "scaler_scale X = map (\<lambda>j. handle_zeros_in_scale (sqrt (var (column X j)))) [0..<ncols X]"

definition fit_transform :: "matrix \<Rightarrow> matrix" where
  "fit_transform X =
     map (\<lambda>r. map (\<lambda>j. (r ! j - scaler_mean X ! j) / scaler_scale X ! j) [0..<ncols X]) X"

definition X_std :: "matrix \<Rightarrow> matrix" where
  "X_std X = fit_transform X"

subsection \<open>Covariance\<close>

text \<open>
  Library routine (\<^verbatim>\<open>np.cov\<close> with its defaults \<^verbatim>\<open>rowvar=True\<close>, \<^verbatim>\<open>ddof=1\<close>), modelled from
  its documentation: every row of the argument is one variable; the rows are centred and
  their pairwise dot products are divided by the number of observations minus one.
\<close>

definition cov :: "matrix \<Rightarrow> matrix" where
  "cov M =
     (let Xc = map (\<lambda>r. map (\<lambda>x. x - mean r) r) M;
          fact = real (ncols M) - 1
      in map (\<lambda>r. map (\<lambda>s. dot r s / fact) Xc) Xc)"

definition \<Sigma> :: "matrix \<Rightarrow> matrix" where
  "\<Sigma> X = cov (T (X_std X))"

subsection \<open>Eigendecomposition\<close>

text \<open>
  \<^verbatim>\<open>np.linalg.eig\<close> is a LAPACK routine; over the reals its result is not a function of
  the matrix (the order of the eigenvalues, the sign of an eigenvector and the basis of
  an eigenspace are not determined). Its result \<open>evals\<close>, \<open>evecs\<close> is therefore a
  parameter of everything that follows, constrained by what its documentation
  promises: \<^verbatim>\<open>a @ v[:,k] = w[k] * v[:,k]\<close> for every column (\<open>eig_columns\<close>), columns of
  unit length (\<open>unit_columns\<close>), and \<^emph>\<open>no\<close> particular order of the eigenvalues. That the
  eigenvectors form a basis, as they do for a symmetric matrix, is \<open>inverse_of evecs U\<close>
  for some matrix \<open>U\<close>.
\<close>

definition eigenpair :: "matrix \<Rightarrow> real \<Rightarrow> vec \<Rightarrow> bool" where
  "eigenpair A lam v = (matvec A v = map (\<lambda>x. lam * x) v)"

definition eig_columns :: "matrix \<Rightarrow> vec \<Rightarrow> matrix \<Rightarrow> bool" where
  "eig_columns A evals evecs =
     (length evals = length A \<and> is_matrix (length A) (length A) evecs \<and>
      list_all (\<lambda>k. eigenpair A (evals ! k) (column evecs k)) [0..<length A])"

definition unit_columns :: "matrix \<Rightarrow> bool" where
  "unit_columns evecs =
     list_all (\<lambda>k. dot (column evecs k) (column evecs k) = 1) [0..<ncols evecs]"

definition inverse_of :: "matrix \<Rightarrow> matrix \<Rightarrow> bool" where
  "inverse_of V U =
     (is_matrix (length V) (length V) U \<and>
      matmul V U = Inr (identity (length V)) \<and> matmul U V = Inr (identity (length V)))"

subsection \<open>Variance explained\<close>

definition total :: "vec \<Rightarrow> real" where
  "total evals = sum_list evals"

definition variance_explained :: "vec \<Rightarrow> vec" where
  "variance_explained evals = map (\<lambda>e. 100 * e / total evals) (rev (sort evals))"

fun cumsum_from :: "real \<Rightarrow> vec \<Rightarrow> vec" where
  "cumsum_from acc [] = []"
| "cumsum_from acc (x # xs) = (acc + x) # cumsum_from (acc + x) xs"

definition cumsum :: "vec \<Rightarrow> vec" where
  "cumsum xs = cumsum_from 0 xs"

text \<open>\<^verbatim>\<open>np.r_[0, variance_explained.cumsum()]\<close>\<close>

definition cumulative :: "vec \<Rightarrow> vec" where
  "cumulative evals = 0 # cumsum (variance_explained evals)"

subsection \<open>Projection\<close>

text \<open>\<^verbatim>\<open>W = evecs[:, :2]\<close> and \<^verbatim>\<open>Y = X_std @ W\<close>\<close>

definition W :: "matrix \<Rightarrow> matrix" where
  "W evecs = map (take 2) evecs"

definition Y :: "matrix \<Rightarrow> matrix \<Rightarrow> np_error + matrix" where
  "Y Xs evecs = matmul Xs (W evecs)"

text \<open>
  The columns \<open>0, \<dots>, k - 1\<close> carry the \<open>k\<close> largest eigenvalues: no other column has
  an eigenvalue above one of theirs.
\<close>

definition selects_largest :: "nat \<Rightarrow> vec \<Rightarrow> bool" where
  "selects_largest k evals =
     list_all (\<lambda>j. list_all (\<lambda>i. evals ! j \<le> evals ! i) [0..<k]) [k..<length evals]"

subsection \<open>The library PCA\<close>

text \<open>
  Library routine (scikit-learn \<^verbatim>\<open>PCA(n_components=3, whiten=True)\<close>), modelled from its
  documentation. \<^verbatim>\<open>fit\<close> centres the table it is given (it does not rescale it) and takes
  a singular value decomposition; its \<^verbatim>\<open>components_\<close> are unit eigenvectors of the
  covariance matrix of that table, one per row, by descending \<^verbatim>\<open>explained_variance_\<close>,
  the eigenvalues. Like the result of \<^verbatim>\<open>eig\<close>, the fitted values are parameters;
  \<open>pca_fitted\<close> is what every fit of three components satisfies. \<^verbatim>\<open>transform\<close>
  projects the centred rows onto the components and, with whitening, divides by the
  square root of the explained variance.
\<close>

definition pca_mean :: "matrix \<Rightarrow> vec" where
  "pca_mean X = map (\<lambda>j. mean (column X j)) [0..<ncols X]"


definition X_pca :: "matrix \<Rightarrow> matrix \<Rightarrow> vec \<Rightarrow> matrix" where
  "X_pca X components explained_variance =
     map (\<lambda>r. map (\<lambda>k. dot (map2 (-) r (pca_mean X)) (components ! k)
                          / sqrt (explained_variance ! k))
                 [0..<length components]) X"

text \<open>
  Two coordinate columns agree up to sign and rescaling when one is a non-zero multiple
  of the other.
\<close>

definition agree_up_to_scale :: "vec \<Rightarrow> vec \<Rightarrow> bool" where
  "agree_up_to_scale xs ys = (\<exists>c. c \<noteq> 0 \<and> xs = map (\<lambda>y. c * y) ys)"

subsection \<open>Two small tables\<close>

text \<open>
  Five observations of three features. The first two features are correlated, the third
  is uncorrelated with both. Their standard deviations are 4, 2 and 2. The eigenvalues
  of \<open>\<Sigma> sample\<close> are \<open>7/4\<close>, \<open>3/4\<close> and \<open>5/4\<close>; \<open>sample_evals\<close> lists them block by
  block: first the two of the block of features 0 and 1, then the one of feature 2.
  \<open>sample_components\<close> and \<open>sample_explained_variance\<close> are the fitted values of the
  library PCA on the same table, and \<open>sample_Y\<close> is its hand-rolled projection.
\<close>

definition sample :: matrix where
  "sample = [[4, 2, 2], [8, 6, 2], [10, 5, 7], [12, 8, 2], [16, 4, 2]]"

definition sample_evals :: vec where
  "sample_evals = [7 / 4, 3 / 4, 5 / 4]"

definition sample_evecs :: matrix where
  "sample_evecs = [[1 / sqrt 2, 1 / sqrt 2, 0], [1 / sqrt 2, - (1 / sqrt 2), 0], [0, 0, 1]]"



definition sample_Y :: matrix where
  "sample_Y =
     [[- (3 / sqrt 2), 0], [0, - (1 / sqrt 2)], [0, 0], [2 / sqrt 2, - (1 / sqrt 2)],
      [1 / sqrt 2, 2 / sqrt 2]]"

text \<open>
  The same observations with every feature rescaled to standard deviation 2, and the
  fitted values of the library PCA. The standardized table, and with it the covariance
  matrix and its eigendecomposition \<open>sample_evals\<close>, \<open>sample_evecs\<close>, are those of
  \<open>sample\<close>.
\<close>

definition level :: matrix where
  "level = [[7, 2, 2], [9, 6, 2], [10, 5, 7], [11, 8, 2], [13, 4, 2]]"

definition level_components :: matrix where
  "level_components = [[1 / sqrt 2, 1 / sqrt 2, 0], [0, 0, 1], [1 / sqrt 2, - (1 / sqrt 2), 0]]"

definition level_explained_variance :: vec where
  "level_explained_variance = [7, 5, 3]"

section \<open>Arrays and sums\<close>

lemma is_matrix_row: "is_matrix n d A \<Longrightarrow> i < n \<Longrightarrow> length (A ! i) = d"
  by (auto simp: is_matrix_def list_all_length)

lemma is_matrix_ncols: "is_matrix n d A \<Longrightarrow> 0 < n \<Longrightarrow> ncols A = d"
  by (cases A) (auto simp: is_matrix_def ncols_def)

lemma is_matrix_T:
  assumes A: "is_matrix n d A" and n: "0 < n"
  shows "is_matrix d n (T A)"
  using A is_matrix_ncols [OF A n]
  by (simp add: is_matrix_def T_def column_def list_all_iff)

lemma T_row: "is_matrix n d A \<Longrightarrow> 0 < n \<Longrightarrow> j < d \<Longrightarrow> T A ! j = column A j"
  using is_matrix_ncols [of n d A] by (simp add: T_def)

lemma column_nonempty: "is_matrix n d X \<Longrightarrow> 0 < n \<Longrightarrow> column X j \<noteq> []"
  by (auto simp: is_matrix_def column_def)

lemma dot_sum:
  "length u = length v \<Longrightarrow> dot u v = (\<Sum>i<length u. u ! i * v ! i)"
proof (induction u v rule: list_induct2)
  case Nil
  show ?case by (simp add: dot_def)
next
  case (Cons x xs y ys)
  have "(\<Sum>i<Suc (length xs). (x # xs) ! i * (y # ys) ! i)
        = x * y + (\<Sum>i<length xs. xs ! i * ys ! i)"
    by (simp add: sum.lessThan_Suc_shift del: sum.lessThan_Suc)
  with Cons show ?case by (simp add: dot_def)
qed

lemma dot_commute: "dot u v = dot v u"
proof -
  have "map2 (*) u v = map2 (*) v (u :: real list)"
    by (induction u v rule: list_induct2') (simp_all add: mult.commute)
  then show ?thesis by (simp add: dot_def)
qed

lemma sum_list_upt: "sum_list (map f [0..<n]) = (\<Sum>i<n. f i)"
  by (simp add: sum_list_sum_nth atLeast0LessThan)

lemma sum_list_nth: "sum_list xs = (\<Sum>i<length xs. xs ! i)"
  by (simp add: sum_list_sum_nth atLeast0LessThan)

lemma sum_delta_lt: "k < (d::nat) \<Longrightarrow> (\<Sum>i<d. (if i = k then f i else 0)) = (f k :: real)"
  by simp

lemma matmul_entry:
  assumes A: "is_matrix n d A" and B: "is_matrix d m B" and n: "0 < n" and d: "0 < d"
    and eq: "matmul A B = Inr C" and i: "i < n" and k: "k < m"
  shows "C ! i ! k = (\<Sum>j<d. A ! i ! j * B ! j ! k)"
proof -
  have ncB: "ncols B = m" using is_matrix_ncols [OF B d] .
  have lenA: "length A = n" and lenB: "length B = d" using A B by (simp_all add: is_matrix_def)
  have C: "C = map (\<lambda>r. map (\<lambda>k. dot r (column B k)) [0..<m]) A"
    using eq by (simp add: matmul_def ncB split: if_splits)
  have row: "length (A ! i) = d" using is_matrix_row [OF A i] .
  have "C ! i ! k = dot (A ! i) (column B k)"
    using i k lenA by (simp add: C)
  also have "\<dots> = (\<Sum>j<d. A ! i ! j * column B k ! j)"
    using dot_sum [of "A ! i" "column B k"] row lenB by (simp add: column_def)
  also have "\<dots> = (\<Sum>j<d. A ! i ! j * B ! j ! k)"
    using lenB by (simp add: column_def)
  finally show ?thesis .
qed

lemma identity_entry: "i < d \<Longrightarrow> k < d \<Longrightarrow> identity d ! i ! k = (if i = k then 1 else 0)"
  by (simp add: identity_def)

section \<open>Standardization\<close>

lemma sum_list_shift_scale:
  "sum_list (map (\<lambda>x. (x - m) / s) xs) = (sum_list xs - real (length xs) * m) / (s::real)"
proof (induction xs)
  case Nil
  show ?case by simp
next
  case (Cons a xs)
  have "(a - m) / s + (sum_list xs - real (length xs) * m) / s
        = (a + sum_list xs - (1 + real (length xs)) * m) / s"
    by (simp add: add_divide_distrib [symmetric] algebra_simps)
  with Cons show ?case by simp
qed

lemma mean_shift_scale:
  assumes "xs \<noteq> []"
  shows "mean (map (\<lambda>x. (x - mean xs) / s) xs) = 0"
  using assms by (simp add: mean_def sum_list_shift_scale)

lemma sum_list_sq_scale:
  "sum_list (map (\<lambda>x. ((x - m) / s)\<^sup>2) xs) = sum_list (map (\<lambda>x. (x - m)\<^sup>2) xs) / (s\<^sup>2 :: real)"
  by (induction xs) (simp_all add: power_divide add_divide_distrib)

lemma var_nonneg: "0 \<le> var xs"
  by (auto simp: var_def mean_def intro!: divide_nonneg_nonneg sum_list_nonneg)

lemma var_shift_scale:
  assumes ne: "xs \<noteq> []" and s: "s \<noteq> 0"
  shows "var (map (\<lambda>x. (x - mean xs) / s) xs) = var xs / s\<^sup>2"
proof -
  let ?zs = "map (\<lambda>x. (x - mean xs) / s) xs"
  have m0: "mean ?zs = 0" using ne by (rule mean_shift_scale)
  have "var ?zs = sum_list (map (\<lambda>x. ((x - mean xs) / s)\<^sup>2) xs) / real (length xs)"
    by (simp only: var_def m0) (simp add: mean_def comp_def)
  also have "\<dots> = sum_list (map (\<lambda>x. (x - mean xs)\<^sup>2) xs) / s\<^sup>2 / real (length xs)"
    by (simp only: sum_list_sq_scale)
  also have "\<dots> = var xs / s\<^sup>2"
    by (simp add: var_def mean_def)
  finally show ?thesis .
qed

lemma var_nonzero_rows:
  assumes X: "is_matrix n d X" and v: "var (column X j) \<noteq> 0"
  shows "2 \<le> n"
proof (rule ccontr)
  assume "\<not> 2 \<le> n"
  then have "n = 0 \<or> n = 1" by arith
  then have "length (column X j) = 0 \<or> length (column X j) = 1"
    using X by (simp add: is_matrix_def column_def)
  then have "var (column X j) = 0"
    by (cases "column X j") (auto simp: var_def mean_def)
  with v show False by simp
qed

lemma is_matrix_fit_transform:
  assumes X: "is_matrix n d X" and n: "0 < n"
  shows "is_matrix n d (fit_transform X)"
  using X is_matrix_ncols [OF X n]
  by (simp add: is_matrix_def fit_transform_def list_all_iff)

lemma is_matrix_X_std: "is_matrix n d X \<Longrightarrow> 0 < n \<Longrightarrow> is_matrix n d (X_std X)"
  unfolding X_std_def by (rule is_matrix_fit_transform)



lemma column_fit_transform:
  assumes X: "is_matrix n d X" and n: "0 < n" and j: "j < d"
  shows "column (fit_transform X) j =
         map (\<lambda>x. (x - mean (column X j)) / handle_zeros_in_scale (sqrt (var (column X j))))
           (column X j)"
proof -
  have nc: "ncols X = d" using is_matrix_ncols [OF X n] .
  show ?thesis
    using j by (simp add: column_def fit_transform_def scaler_mean_def scaler_scale_def nc comp_def)
qed

text \<open>
  Over the reals a standardized column that was not constant has mean 0 and population
  variance 1. This is the identity behind the diagonal of the covariance matrix below;
  it is not a statement about the floating-point values the library returns.
\<close>

lemma standardized_column:
  assumes X: "is_matrix n d X" and j: "j < d" and v: "var (column X j) \<noteq> 0"
  shows "mean (column (X_std X) j) = 0 \<and> var (column (X_std X) j) = 1"
proof -
  let ?c = "column X j"
  let ?s = "sqrt (var ?c)"
  have "2 \<le> n" using X v by (rule var_nonzero_rows)
  then have n: "0 < n" by simp
  have ne: "?c \<noteq> []" using X n by (rule column_nonempty)
  have s0: "?s \<noteq> 0" using v by simp
  have s2: "?s\<^sup>2 = var ?c" using var_nonneg [of ?c] by simp
  have col: "column (X_std X) j = map (\<lambda>x. (x - mean ?c) / ?s) ?c"
    using column_fit_transform [OF X n j] s0 by (simp add: X_std_def handle_zeros_in_scale_def)
  have "mean (column (X_std X) j) = 0"
    unfolding col using ne by (rule mean_shift_scale)
  moreover have "var (column (X_std X) j) = 1"
    unfolding col using var_shift_scale [OF ne s0] s2 v by simp
  ultimately show ?thesis ..
qed

lemma sample_std:
  "X_std sample =
     [[- (3 / 2), - (3 / 2), - (1 / 2)], [- (1 / 2), 1 / 2, - (1 / 2)], [0, 0, 2],
      [1 / 2, 3 / 2, - (1 / 2)], [3 / 2, - (1 / 2), - (1 / 2)]]"
  by (simp add: X_std_def fit_transform_def sample_def scaler_mean_def scaler_scale_def
      ncols_def column_def mean_def var_def handle_zeros_in_scale_def)

lemma sample_matrix: "is_matrix 5 3 sample"
  by (simp add: is_matrix_def sample_def)

section \<open>The covariance matrix of the standardized table\<close>

lemma is_matrix_cov: "is_matrix d n M \<Longrightarrow> is_matrix d d (cov M)"
  by (simp add: is_matrix_def cov_def Let_def list_all_iff)

lemma cov_entry:
  assumes M: "is_matrix d n M" and j: "j < d" and k: "k < d"
  shows "cov M ! j ! k =
         dot (map (\<lambda>x. x - mean (M ! j)) (M ! j)) (map (\<lambda>x. x - mean (M ! k)) (M ! k))
           / (real n - 1)"
proof -
  have d: "0 < d" using j by simp
  have nc: "ncols M = n" using is_matrix_ncols [OF M d] .
  have len: "length M = d" using M by (simp add: is_matrix_def)
  show ?thesis using j k len by (simp add: cov_def Let_def nc)
qed

lemma dot_centered_self:
  "dot (map (\<lambda>x. x - m) z) (map (\<lambda>x. x - m) z) = sum_list (map (\<lambda>x. (x - m)\<^sup>2) z)"
  by (induction z) (simp_all add: dot_def power2_eq_square)

lemma dot_centered_var:
  assumes "z \<noteq> []"
  shows "dot (map (\<lambda>x. x - mean z) z) (map (\<lambda>x. x - mean z) z) = real (length z) * var z"
  using assms by (simp add: dot_centered_self var_def mean_def [of "map f z" for f])

lemma is_matrix_Sigma:
  assumes X: "is_matrix n d X" and n: "0 < n"
  shows "is_matrix d d (\<Sigma> X)"
  unfolding \<Sigma>_def
  by (rule is_matrix_cov [OF is_matrix_T [OF is_matrix_X_std [OF X n] n]])

lemma Sigma_entry:
  assumes X: "is_matrix n d X" and n: "0 < n" and j: "j < d" and k: "k < d"
  shows "\<Sigma> X ! j ! k =
         dot (map (\<lambda>x. x - mean (column (X_std X) j)) (column (X_std X) j))
             (map (\<lambda>x. x - mean (column (X_std X) k)) (column (X_std X) k)) / (real n - 1)"
proof -
  have Z: "is_matrix n d (X_std X)" using X n by (rule is_matrix_X_std)
  have TZ: "is_matrix d n (T (X_std X))" using Z n by (rule is_matrix_T)
  show ?thesis
    unfolding \<Sigma>_def cov_entry [OF TZ j k] T_row [OF Z n j] T_row [OF Z n k] ..
qed

lemma Sigma_entry_sum:
  assumes X: "is_matrix n d X" and n: "0 < n" and j: "j < d" and k: "k < d"
  shows "\<Sigma> X ! j ! k =
         (\<Sum>t<n. (column (X_std X) j ! t - mean (column (X_std X) j)) *
                  (column (X_std X) k ! t - mean (column (X_std X) k))) / (real n - 1)"
proof -
  have Z: "is_matrix n d (X_std X)" using X n by (rule is_matrix_X_std)
  have len: "length (column (X_std X) c) = n" for c
    using Z by (simp add: is_matrix_def column_def)
  have "dot (map (\<lambda>x. x - mean (column (X_std X) j)) (column (X_std X) j))
            (map (\<lambda>x. x - mean (column (X_std X) k)) (column (X_std X) k))
        = (\<Sum>t<n. (column (X_std X) j ! t - mean (column (X_std X) j)) *
                   (column (X_std X) k ! t - mean (column (X_std X) k)))"
    using dot_sum [of "map (\<lambda>x. x - mean (column (X_std X) j)) (column (X_std X) j)"
                      "map (\<lambda>x. x - mean (column (X_std X) k)) (column (X_std X) k)"]
    by (simp add: len)
  then show ?thesis using Sigma_entry [OF X n j k] by simp
qed

lemma Sigma_symmetric:
  assumes X: "is_matrix n d X" and n: "0 < n" and j: "j < d" and k: "k < d"
  shows "\<Sigma> X ! j ! k = \<Sigma> X ! k ! j"
  by (simp add: Sigma_entry [OF X n j k] Sigma_entry [OF X n k j] dot_commute)

lemma Sigma_diagonal:
  assumes X: "is_matrix n d X" and j: "j < d" and v: "var (column X j) \<noteq> 0"
  shows "\<Sigma> X ! j ! j = real n / (real n - 1)"
proof -
  have n2: "2 \<le> n" using X v by (rule var_nonzero_rows)
  then have n: "0 < n" by simp
  let ?z = "column (X_std X) j"
  have Z: "is_matrix n d (X_std X)" using X n by (rule is_matrix_X_std)
  have len: "length ?z = n" using Z by (simp add: is_matrix_def column_def)
  then have ne: "?z \<noteq> []" using n by auto
  have "var ?z = 1" using standardized_column [OF X j v] by simp
  then have "dot (map (\<lambda>x. x - mean ?z) ?z) (map (\<lambda>x. x - mean ?z) ?z) = real n"
    using dot_centered_var [OF ne] len by simp
  then show ?thesis using Sigma_entry [OF X n j j] by simp
qed

lemma trace_Sigma:
  assumes X: "is_matrix n d X" and n: "0 < n" and v: "\<forall>j<d. var (column X j) \<noteq> 0"
  shows "trace (\<Sigma> X) = real d * (real n / (real n - 1))"
proof -
  have len: "length (\<Sigma> X) = d" using is_matrix_Sigma [OF X n] by (simp add: is_matrix_def)
  have "trace (\<Sigma> X) = (\<Sum>j<d. \<Sigma> X ! j ! j)"
    by (simp add: trace_def len sum_list_upt)
  also have "\<dots> = (\<Sum>j<d. real n / (real n - 1))"
    by (rule sum.cong) (simp_all add: Sigma_diagonal [OF X] v)
  finally show ?thesis by simp
qed

lemma sample_Sigma:
  "\<Sigma> sample = [[5 / 4, 1 / 2, 0], [1 / 2, 5 / 4, 0], [0, 0, 5 / 4]]"
  by (simp add: \<Sigma>_def sample_std cov_def T_def ncols_def column_def mean_def dot_def)

lemma sample_var: "\<forall>j<3. var (column sample j) \<noteq> 0"
proof -
  have "var (column sample j) \<noteq> 0" if "j = 0 \<or> j = 1 \<or> j = 2" for j
    using that by (auto simp: sample_def column_def var_def mean_def)
  moreover have "j = 0 \<or> j = 1 \<or> j = 2" if "j < 3" for j :: nat
    using that by arith
  ultimately show ?thesis by blast
qed

section \<open>Eigenvalues and eigenvectors of the covariance matrix\<close>

lemma eigen_entry:
  assumes A: "is_matrix d d A" and E: "eig_columns A evals evecs" and i: "i < d" and k: "k < d"
  shows "(\<Sum>j<d. A ! i ! j * evecs ! j ! k) = evals ! k * evecs ! i ! k"
proof -
  have lenA: "length A = d" using A by (simp add: is_matrix_def)
  have V: "is_matrix d d evecs" using E lenA by (simp add: eig_columns_def)
  have lenV: "length evecs = d" using V by (simp add: is_matrix_def)
  have "eigenpair A (evals ! k) (column evecs k)"
    using E k lenA by (simp add: eig_columns_def list_all_iff)
  then have "matvec A (column evecs k) ! i = map (\<lambda>x. evals ! k * x) (column evecs k) ! i"
    by (simp add: eigenpair_def)
  then have "dot (A ! i) (column evecs k) = evals ! k * evecs ! i ! k"
    using i lenA lenV by (simp add: matvec_def column_def)
  moreover have "dot (A ! i) (column evecs k) = (\<Sum>j<d. A ! i ! j * evecs ! j ! k)"
    using dot_sum [of "A ! i" "column evecs k"] is_matrix_row [OF A i] lenV
    by (simp add: column_def)
  ultimately show ?thesis by simp
qed

text \<open>
  The trace is invariant under the change of basis: with \<open>A V = V diag(w)\<close> and
  \<open>U V = V U = 1\<close>, the eigenvalues \<open>w\<close> sum to the trace of \<open>A\<close>.
\<close>

lemma trace_similarity:
  assumes A: "is_matrix d d A" and E: "eig_columns A evals evecs"
    and U: "inverse_of evecs U"
  shows "total evals = trace A"
proof (cases "d = 0")
  case True
  then show ?thesis using A E by (simp add: is_matrix_def eig_columns_def total_def trace_def)
next
  case False
  then have d: "0 < d" by simp
  have lenA: "length A = d" using A by (simp add: is_matrix_def)
  have V: "is_matrix d d evecs" and lenw: "length evals = d"
    using E lenA by (simp_all add: eig_columns_def)
  have lenV: "length evecs = d" using V by (simp add: is_matrix_def)
  have Um: "is_matrix d d U" using U lenV by (simp add: inverse_of_def)
  have VU: "matmul evecs U = Inr (identity d)" and UV: "matmul U evecs = Inr (identity d)"
    using U lenV by (simp_all add: inverse_of_def)
  have uv: "(\<Sum>j<d. U ! i ! j * evecs ! j ! k) = (if i = k then 1 else 0)"
    if "i < d" "k < d" for i k
    using matmul_entry [OF Um V d d UV that] identity_entry [OF that] by simp
  have vu: "(\<Sum>j<d. evecs ! i ! j * U ! j ! k) = (if i = k then 1 else 0)"
    if "i < d" "k < d" for i k
    using matmul_entry [OF V Um d d VU that] identity_entry [OF that] by simp
  have "total evals = (\<Sum>k<d. evals ! k)"
    using lenw by (simp add: total_def sum_list_nth)
  also have "\<dots> = (\<Sum>k<d. evals ! k * (\<Sum>i<d. U ! k ! i * evecs ! i ! k))"
    by (rule sum.cong) (simp_all add: uv)
  also have "\<dots> = (\<Sum>k<d. \<Sum>i<d. U ! k ! i * (evals ! k * evecs ! i ! k))"
    by (simp add: sum_distrib_left mult.left_commute)
  also have "\<dots> = (\<Sum>k<d. \<Sum>i<d. U ! k ! i * (\<Sum>j<d. A ! i ! j * evecs ! j ! k))"
    by (intro sum.cong refl) (simp add: eigen_entry [OF A E])
  also have "\<dots> = (\<Sum>k<d. \<Sum>i<d. \<Sum>j<d. A ! i ! j * (evecs ! j ! k * U ! k ! i))"
    by (simp add: sum_distrib_left mult_ac)
  also have "\<dots> = (\<Sum>i<d. \<Sum>k<d. \<Sum>j<d. A ! i ! j * (evecs ! j ! k * U ! k ! i))"
    by (rule sum.swap)
  also have "\<dots> = (\<Sum>i<d. \<Sum>j<d. \<Sum>k<d. A ! i ! j * (evecs ! j ! k * U ! k ! i))"
    by (intro sum.cong refl sum.swap)
  also have "\<dots> = (\<Sum>i<d. \<Sum>j<d. A ! i ! j * (\<Sum>k<d. evecs ! j ! k * U ! k ! i))"
    by (simp add: sum_distrib_left)
  also have "\<dots> = (\<Sum>i<d. \<Sum>j<d. A ! i ! j * (if j = i then 1 else 0))"
    by (intro sum.cong refl) (simp add: vu)
  also have "\<dots> = (\<Sum>i<d. \<Sum>j<d. (if j = i then A ! i ! j else 0))"
    by (intro sum.cong refl) simp
  also have "\<dots> = (\<Sum>i<d. A ! i ! i)"
    by (intro sum.cong refl) (simp add: sum_delta_lt)
  also have "\<dots> = trace A"
    using lenA by (simp add: trace_def sum_list_upt)
  finally show ?thesis .
qed



lemma sample_eig: "eig_columns (\<Sigma> sample) sample_evals sample_evecs"
  by (simp add: sample_Sigma eig_columns_def sample_evals_def sample_evecs_def is_matrix_def
      eigenpair_def matvec_def column_def dot_def field_simps)

lemma sample_unit: "unit_columns sample_evecs"
  by (simp add: unit_columns_def sample_evecs_def ncols_def column_def dot_def)

lemma sample_inverse: "inverse_of sample_evecs sample_evecs"
  by (simp add: inverse_of_def sample_evecs_def is_matrix_def matmul_def ncols_def
      identity_def column_def dot_def)

lemma sample_total: "total sample_evals = 15 / 4"
  by (simp add: total_def sample_evals_def)

text \<open>
  Claim C6. The eigenvalues of the covariance matrix of the standardized table sum to
  its trace, the sum of the per-feature variances that the covariance routine computes,
  whenever \<open>evals\<close>, \<open>evecs\<close> is a complete eigendecomposition of that matrix.
\<close>

theorem eigenvalues_sum_to_trace:
  assumes X: "is_matrix n d X" and n: "0 < n"
    and E: "eig_columns (\<Sigma> X) evals evecs" and U: "inverse_of evecs U"
  shows "total evals = trace (\<Sigma> X)"
  using is_matrix_Sigma [OF X n] E U by (rule trace_similarity)

theorem eigenvalues_sum_to_trace_witness:
  "is_matrix 5 3 sample \<and> eig_columns (\<Sigma> sample) sample_evals sample_evecs \<and>
   inverse_of sample_evecs sample_evecs \<and>
   total sample_evals = trace (\<Sigma> sample) \<and> trace (\<Sigma> sample) = 15 / 4"
proof -
  have "total sample_evals = trace (\<Sigma> sample)"
    using eigenvalues_sum_to_trace [of 5 3 sample sample_evals sample_evecs sample_evecs]
      sample_matrix sample_eig sample_inverse by simp
  then show ?thesis
    using sample_matrix sample_eig sample_inverse sample_total by simp
qed

text \<open>
  Claim C10. The standardization divides by the population standard deviation and the
  covariance routine by \<open>N - 1\<close>: when no feature is constant, every diagonal entry of
  the covariance matrix of the standardized table is \<open>N / (N - 1)\<close>, not 1, and the
  eigenvalues of a complete eigendecomposition sum to \<open>D N / (N - 1)\<close>, not to \<open>D\<close>.
\<close>

theorem ddof_mismatch:
  assumes X: "is_matrix n d X" and v: "\<forall>j<d. var (column X j) \<noteq> 0" and d: "0 < d"
    and E: "eig_columns (\<Sigma> X) evals evecs" and U: "inverse_of evecs U"
  shows "(\<forall>j<d. \<Sigma> X ! j ! j = real n / (real n - 1) \<and> \<Sigma> X ! j ! j \<noteq> 1) \<and>
         total evals = real d * real n / (real n - 1) \<and> total evals \<noteq> real d"
proof -
  have v0: "var (column X 0) \<noteq> 0" using v d by simp
  have n2: "2 \<le> n" using X v0 by (rule var_nonzero_rows)
  then have n: "0 < n" by simp
  have ne1: "real n / (real n - 1) \<noteq> 1" using n2 by (simp add: field_simps)
  have diag: "\<Sigma> X ! j ! j = real n / (real n - 1)" if "j < d" for j
    using Sigma_diagonal [OF X that] v that by simp
  have "total evals = trace (\<Sigma> X)"
    using is_matrix_Sigma [OF X n] E U by (rule trace_similarity)
  then have tot: "total evals = real d * (real n / (real n - 1))"
    using trace_Sigma [OF X n v] by simp
  have "real d * (real n / (real n - 1)) \<noteq> real d"
  proof
    assume "real d * (real n / (real n - 1)) = real d"
    then have "real d * (real n / (real n - 1)) = real d * 1" by simp
    then have "real n / (real n - 1) = 1" using d by (simp only: mult_cancel_left) simp
    with ne1 show False by simp
  qed
  with tot diag ne1 show ?thesis by simp
qed

theorem ddof_mismatch_witness:
  "is_matrix 5 3 sample \<and> list_all (\<lambda>j. var (column sample j) \<noteq> 0) [0, 1, 2] \<and>
   eig_columns (\<Sigma> sample) sample_evals sample_evecs \<and> inverse_of sample_evecs sample_evecs \<and>
   list_all (\<lambda>j. \<Sigma> sample ! j ! j = 5 / 4) [0, 1, 2] \<and> total sample_evals = 3 * 5 / 4 \<and>
   total sample_evals \<noteq> 3"
proof -
  have "(\<forall>j<3. \<Sigma> sample ! j ! j = real 5 / (real 5 - 1) \<and> \<Sigma> sample ! j ! j \<noteq> 1) \<and>
        total sample_evals = real 3 * real 5 / (real 5 - 1) \<and> total sample_evals \<noteq> real 3"
    using ddof_mismatch [of 5 3 sample sample_evals sample_evecs sample_evecs]
      sample_matrix sample_var sample_eig sample_inverse by simp
  then show ?thesis
    using sample_matrix sample_var sample_eig sample_inverse by simp
qed

text \<open>
  The covariance matrix is positive semidefinite: an eigenvalue that belongs to a unit
  eigenvector is not negative.
\<close>

lemma unit_column:
  assumes V: "is_matrix d d evecs" and U: "unit_columns evecs" and k: "k < d"
  shows "(\<Sum>i<d. evecs ! i ! k * evecs ! i ! k) = 1"
proof -
  have d: "0 < d" using k by simp
  have nc: "ncols evecs = d" using is_matrix_ncols [OF V d] .
  have len: "length evecs = d" using V by (simp add: is_matrix_def)
  have "dot (column evecs k) (column evecs k) = 1"
    using U k by (simp add: unit_columns_def nc list_all_iff)
  moreover have "dot (column evecs k) (column evecs k) = (\<Sum>i<d. evecs ! i ! k * evecs ! i ! k)"
    using dot_sum [of "column evecs k" "column evecs k"] len by (simp add: column_def)
  ultimately show ?thesis by simp
qed

lemma quadratic_form_nonneg:
  fixes c :: "nat \<Rightarrow> nat \<Rightarrow> real" and v :: "nat \<Rightarrow> real"
  shows "0 \<le> (\<Sum>i<d. v i * (\<Sum>j<d. (\<Sum>t<n. c t i * c t j) * v j))"
proof -
  have "(\<Sum>i<d. v i * (\<Sum>j<d. (\<Sum>t<n. c t i * c t j) * v j))
        = (\<Sum>i<d. \<Sum>j<d. \<Sum>t<n. (c t i * v i) * (c t j * v j))"
    by (simp add: sum_distrib_left sum_distrib_right mult_ac)
  also have "\<dots> = (\<Sum>i<d. \<Sum>t<n. \<Sum>j<d. (c t i * v i) * (c t j * v j))"
    by (intro sum.cong refl sum.swap)
  also have "\<dots> = (\<Sum>t<n. \<Sum>i<d. \<Sum>j<d. (c t i * v i) * (c t j * v j))"
    by (rule sum.swap)
  also have "\<dots> = (\<Sum>t<n. (\<Sum>i<d. c t i * v i) * (\<Sum>j<d. c t j * v j))"
    by (simp add: sum_product)
  also have "\<dots> \<ge> 0"
    by (intro sum_nonneg) simp
  finally show ?thesis .
qed

lemma eigenvalue_nonneg:
  assumes X: "is_matrix n d X" and n: "2 \<le> n"
    and E: "eig_columns (\<Sigma> X) evals evecs" and U: "unit_columns evecs" and k: "k < d"
  shows "0 \<le> evals ! k"
proof -
  have n0: "0 < n" using n by simp
  have A: "is_matrix d d (\<Sigma> X)" using X n0 by (rule is_matrix_Sigma)
  have lenA: "length (\<Sigma> X) = d" using A by (simp add: is_matrix_def)
  have V: "is_matrix d d evecs" using E lenA by (simp add: eig_columns_def)
  define c where "c t j = column (X_std X) j ! t - mean (column (X_std X) j)" for t j
  define v where "v i = evecs ! i ! k" for i
  define r where "r = 1 / (real n - 1)"
  have entry: "\<Sigma> X ! i ! j = r * (\<Sum>t<n. c t i * c t j)" if "i < d" "j < d" for i j
    using Sigma_entry_sum [OF X n0 that] by (simp add: c_def r_def)
  have pos: "0 < r" using n by (simp add: r_def)
  have "evals ! k = evals ! k * (\<Sum>i<d. v i * v i)"
    using unit_column [OF V U k] by (simp add: v_def)
  also have "\<dots> = (\<Sum>i<d. v i * (evals ! k * v i))"
    by (simp add: sum_distrib_left mult.left_commute)
  also have "\<dots> = (\<Sum>i<d. v i * (\<Sum>j<d. \<Sigma> X ! i ! j * v j))"
    by (intro sum.cong refl) (simp add: eigen_entry [OF A E _ k] v_def)
  also have "\<dots> = (\<Sum>i<d. v i * (\<Sum>j<d. r * (\<Sum>t<n. c t i * c t j) * v j))"
    by (intro sum.cong refl) (simp add: entry)
  also have "\<dots> = r * (\<Sum>i<d. v i * (\<Sum>j<d. (\<Sum>t<n. c t i * c t j) * v j))"
    by (simp add: sum_distrib_left mult_ac)
  finally have "evals ! k = r * (\<Sum>i<d. v i * (\<Sum>j<d. (\<Sum>t<n. c t i * c t j) * v j))" .
  then show ?thesis
    using quadratic_form_nonneg [where d = d and v = v and n = n and c = c] pos by simp
qed

text \<open>
  The covariance matrix is symmetric: eigenvectors that belong to different eigenvalues
  are orthogonal. Nothing of the kind follows for two eigenvectors of one eigenvalue.
\<close>

lemma eigenvectors_orthogonal:
  assumes X: "is_matrix n d X" and n: "0 < n"
    and E: "eig_columns (\<Sigma> X) evals evecs"
    and j: "j < d" and k: "k < d" and ne: "evals ! j \<noteq> evals ! k"
  shows "dot (column evecs j) (column evecs k) = 0"
proof -
  have A: "is_matrix d d (\<Sigma> X)" using X n by (rule is_matrix_Sigma)
  have lenA: "length (\<Sigma> X) = d" using A by (simp add: is_matrix_def)
  have V: "is_matrix d d evecs" using E lenA by (simp add: eig_columns_def)
  have len: "length evecs = d" using V by (simp add: is_matrix_def)
  define u where "u i = evecs ! i ! j" for i
  define v where "v i = evecs ! i ! k" for i
  have uv: "dot (column evecs j) (column evecs k) = (\<Sum>i<d. u i * v i)"
    using dot_sum [of "column evecs j" "column evecs k"] len
    by (simp add: column_def u_def v_def)
  have "evals ! j * (\<Sum>i<d. u i * v i) = (\<Sum>i<d. (evals ! j * u i) * v i)"
    by (simp add: sum_distrib_left mult.assoc)
  also have "\<dots> = (\<Sum>i<d. (\<Sum>l<d. \<Sigma> X ! i ! l * u l) * v i)"
    by (intro sum.cong refl) (simp add: eigen_entry [OF A E _ j] u_def)
  also have "\<dots> = (\<Sum>i<d. \<Sum>l<d. \<Sigma> X ! i ! l * u l * v i)"
    by (simp add: sum_distrib_right)
  also have "\<dots> = (\<Sum>l<d. \<Sum>i<d. \<Sigma> X ! i ! l * u l * v i)"
    by (rule sum.swap)
  also have "\<dots> = (\<Sum>l<d. \<Sum>i<d. \<Sigma> X ! l ! i * u l * v i)"
    by (intro sum.cong refl) (simp add: Sigma_symmetric [OF X n])
  also have "\<dots> = (\<Sum>l<d. u l * (\<Sum>i<d. \<Sigma> X ! l ! i * v i))"
    by (simp add: sum_distrib_left mult_ac)
  also have "\<dots> = (\<Sum>l<d. u l * (evals ! k * v l))"
    by (intro sum.cong refl) (simp add: eigen_entry [OF A E _ k] v_def)
  also have "\<dots> = evals ! k * (\<Sum>i<d. u i * v i)"
    by (simp add: sum_distrib_left mult.left_commute)
  finally have "(evals ! j - evals ! k) * (\<Sum>i<d. u i * v i) = 0"
    by (simp add: left_diff_distrib)
  with ne uv show ?thesis by simp
qed

section \<open>Variance explained\<close>

lemma sum_list_insort: "sum_list (insort x xs) = x + sum_list (xs :: real list)"
  by (induction xs) simp_all

lemma sum_list_sort: "sum_list (sort xs) = sum_list (xs :: real list)"
  by (induction xs) (simp_all add: sum_list_insort)

lemma sum_list_percent:
  "sum_list (map (\<lambda>e. 100 * e / t) xs) = 100 * sum_list xs / (t :: real)"
  by (induction xs) (simp_all add: add_divide_distrib distrib_left)

lemma sum_variance_explained:
  assumes "total evals \<noteq> 0"
  shows "sum_list (variance_explained evals) = 100"
  using assms
  by (simp add: variance_explained_def sum_list_percent sum_list_rev sum_list_sort total_def)

lemma nonincreasing_variance_explained:
  assumes t: "0 < total evals"
  shows "sorted_wrt (\<lambda>a b. b \<le> a) (variance_explained evals)"
proof -
  have "sorted_wrt (\<lambda>a b. b \<le> a) (rev (sort evals))"
    by (simp add: sorted_wrt_rev)
  then have "sorted_wrt (\<lambda>a b. 100 * b / total evals \<le> 100 * a / total evals) (rev (sort evals))"
    by (rule sorted_wrt_mono_rel [rotated]) (use t in \<open>simp add: divide_right_mono\<close>)
  then show ?thesis by (simp add: variance_explained_def sorted_wrt_map)
qed

lemma nonneg_variance_explained:
  assumes t: "0 < total evals" and nn: "\<forall>e\<in>set evals. 0 \<le> e"
  shows "\<forall>p\<in>set (variance_explained evals). 0 \<le> p"
  using t nn by (auto simp: variance_explained_def)

lemma last_cumsum_from: "last (a # cumsum_from a xs) = a + sum_list xs"
  by (induction xs arbitrary: a) (simp_all add: add.assoc)

lemma sorted_cumsum_from:
  "\<forall>x\<in>set xs. 0 \<le> x \<Longrightarrow> sorted (a # cumsum_from a xs)"
proof (induction xs arbitrary: a)
  case Nil
  show ?case by simp
next
  case (Cons x xs)
  have "sorted ((a + x) # cumsum_from (a + x) xs)" using Cons by simp
  moreover have "a \<le> a + x" using Cons.prems by simp
  ultimately show ?case by (simp only: cumsum_from.simps sorted2)
qed

text \<open>
  The hypotheses of the next theorem hold for the eigenvalues of the pipeline: none is
  negative, and they sum to \<open>D N / (N - 1)\<close>.
\<close>

lemma pipeline_eigenvalues_admissible:
  assumes X: "is_matrix n d X" and v: "\<forall>j<d. var (column X j) \<noteq> 0" and d: "0 < d"
    and E: "eig_columns (\<Sigma> X) evals evecs" and N: "unit_columns evecs"
    and U: "inverse_of evecs U"
  shows "(\<forall>e\<in>set evals. 0 \<le> e) \<and> sum_list evals \<noteq> 0"
proof -
  have v0: "var (column X 0) \<noteq> 0" using v d by simp
  have n2: "2 \<le> n" using X v0 by (rule var_nonzero_rows)
  then have n: "0 < n" by simp
  have A: "is_matrix d d (\<Sigma> X)" using X n by (rule is_matrix_Sigma)
  have len: "length evals = d" using E A by (simp add: eig_columns_def is_matrix_def)
  have "0 \<le> e" if e: "e \<in> set evals" for e
  proof -
    obtain k where "k < length evals" "evals ! k = e"
      using e by (auto simp: in_set_conv_nth)
    then show ?thesis using eigenvalue_nonneg [OF X n2 E N, of k] len by simp
  qed
  moreover have "total evals \<noteq> 0"
  proof -
    have tot: "total evals = real d * (real n / (real n - 1))"
      using trace_similarity [OF A E U] trace_Sigma [OF X n v] by simp
    have q: "0 < real n / (real n - 1)" using n2 by simp
    have "0 < real d" using d by simp
    then have "0 < real d * (real n / (real n - 1))" using q by (rule mult_pos_pos)
    then have "0 < total evals" by (simp only: tot)
    then show ?thesis by simp
  qed
  ultimately show ?thesis unfolding total_def by blast
qed

lemma cumsum_from_nth:
  "i \<le> length xs \<Longrightarrow> (a # cumsum_from a xs) ! i = a + sum_list (take i xs)"
proof (induction xs arbitrary: a i)
  case Nil
  then show ?case by simp
next
  case (Cons x xs)
  show ?case
  proof (cases i)
    case 0
    then show ?thesis by simp
  next
    case (Suc m)
    then have "m \<le> length xs" using Cons.prems by simp
    then have "((a + x) # cumsum_from (a + x) xs) ! m = a + x + sum_list (take m xs)"
      by (rule Cons.IH)
    then show ?thesis using Suc by (simp add: add.assoc)
  qed
qed

lemma length_cumsum_from: "length (cumsum_from a xs) = length xs"
  by (induction xs arbitrary: a) simp_all

lemma cumulative_running_sums:
  "length (cumulative evals) = length evals + 1 \<and>
   (\<forall>i\<le>length evals. cumulative evals ! i = sum_list (take i (variance_explained evals)))"
proof -
  have len: "length (variance_explained evals) = length evals"
    by (simp add: variance_explained_def)
  have "cumulative evals ! i = sum_list (take i (variance_explained evals))"
    if "i \<le> length evals" for i
    using cumsum_from_nth [of i "variance_explained evals" 0] that len
    by (simp add: cumulative_def cumsum_def)
  then show ?thesis by (simp add: cumulative_def cumsum_def length_cumsum_from len)
qed

lemma mset_variance_explained:
  "mset (variance_explained evals) = image_mset (\<lambda>e. 100 * e / sum_list evals) (mset evals)"
  by (simp add: variance_explained_def total_def)

text \<open>
  Claim C4. For eigenvalues that are not negative and do not sum to zero:
  the fractions of variance explained are the eigenvalues, each multiplied by 100 and
  divided by the sum of all of them, in non-increasing order; no entry is negative and
  the entries sum to 100. The cumulative sequence has one entry more than there are
  eigenvalues, its entry \<open>i\<close> is the sum of the first \<open>i\<close> fractions, so it starts with 0,
  is non-decreasing and ends at 100.
\<close>

theorem variance_explained_fractions:
  assumes nn: "\<forall>e\<in>set evals. 0 \<le> e" and t: "sum_list evals \<noteq> 0"
  shows "mset (variance_explained evals) = image_mset (\<lambda>e. 100 * e / sum_list evals) (mset evals) \<and>
         sorted_wrt (\<lambda>a b. b \<le> a) (variance_explained evals) \<and>
         (\<forall>p\<in>set (variance_explained evals). 0 \<le> p) \<and>
         sum_list (variance_explained evals) = 100 \<and>
         length (cumulative evals) = length evals + 1 \<and>
         (\<forall>i\<le>length evals. cumulative evals ! i = sum_list (take i (variance_explained evals))) \<and>
         cumulative evals ! 0 = 0 \<and>
         sorted (cumulative evals) \<and>
         last (cumulative evals) = 100"
proof -
  have t': "total evals \<noteq> 0" using t by (simp add: total_def)
  have "0 \<le> total evals" using nn by (simp add: total_def sum_list_nonneg)
  with t' have pos: "0 < total evals" by simp
  have nnp: "\<forall>p\<in>set (variance_explained evals). 0 \<le> p"
    using pos nn by (rule nonneg_variance_explained)
  have "sorted (cumulative evals)"
    unfolding cumulative_def cumsum_def using nnp by (rule sorted_cumsum_from)
  moreover have "last (cumulative evals) = 100"
    unfolding cumulative_def cumsum_def last_cumsum_from
    using sum_variance_explained [OF t'] by simp
  moreover have "cumulative evals ! 0 = 0" by (simp add: cumulative_def)
  ultimately show ?thesis
    using nnp nonincreasing_variance_explained [OF pos] sum_variance_explained [OF t']
      cumulative_running_sums [of evals] mset_variance_explained [of evals]
    by blast
qed

theorem variance_explained_fractions_witness:
  "list_all (\<lambda>e. 0 \<le> e) sample_evals \<and> sum_list sample_evals = 15 / 4 \<and>
   variance_explained sample_evals = [140 / 3, 100 / 3, 20] \<and>
   cumulative sample_evals = [0, 140 / 3, 80, 100] \<and>
   mset (variance_explained sample_evals)
     = image_mset (\<lambda>e. 100 * e / sum_list sample_evals) (mset sample_evals) \<and>
   sorted_wrt (\<lambda>a b. b \<le> a) (variance_explained sample_evals) \<and>
   sum_list (variance_explained sample_evals) = 100 \<and>
   length (cumulative sample_evals) = length sample_evals + 1 \<and>
   sorted (cumulative sample_evals) \<and> last (cumulative sample_evals) = 100"
proof -
  have nn: "\<forall>e\<in>set sample_evals. 0 \<le> e" by (simp add: sample_evals_def)
  have s: "sum_list sample_evals = 15 / 4" by (simp add: sample_evals_def)
  then have t: "sum_list sample_evals \<noteq> 0" by simp
  have ve: "variance_explained sample_evals = [140 / 3, 100 / 3, 20]"
    by (simp add: variance_explained_def sample_total) (simp add: sample_evals_def)
  have cu: "cumulative sample_evals = [0, 140 / 3, 80, 100]"
    by (simp add: cumulative_def cumsum_def ve)
  show ?thesis
    unfolding list_all_iff
    using variance_explained_fractions [OF nn t] nn s ve cu by blast
qed

section \<open>Projection\<close>

lemma is_matrix_W: "is_matrix d d evecs \<Longrightarrow> 2 \<le> d \<Longrightarrow> is_matrix d 2 (W evecs)"
  by (auto simp: is_matrix_def W_def list_all_iff)

lemma column_W: "is_matrix d d evecs \<Longrightarrow> k < 2 \<Longrightarrow> column (W evecs) k = column evecs k"
  by (auto simp: column_def W_def)

lemma Y_entries:
  assumes X: "is_matrix n d Xs" and n: "0 < n"
    and V: "is_matrix d d evecs" and d: "2 \<le> d"
  shows "\<exists>Ys. Y Xs evecs = Inr Ys \<and> is_matrix n 2 Ys \<and>
           (\<forall>i<n. \<forall>k<2. Ys ! i ! k = dot (Xs ! i) (column evecs k))"
proof -
  have W2: "is_matrix d 2 (W evecs)" using V d by (rule is_matrix_W)
  have len: "length (W evecs) = d" using W2 by (simp add: is_matrix_def)
  have nc: "ncols (W evecs) = 2" using is_matrix_ncols [OF W2] d by simp
  have ncX: "ncols Xs = d" using is_matrix_ncols [OF X n] .
  let ?Ys = "map (\<lambda>r. map (\<lambda>k. dot r (column (W evecs) k)) [0..<2]) Xs"
  have eq: "Y Xs evecs = Inr ?Ys"
    by (simp add: Y_def matmul_def ncX len nc)
  have shape: "is_matrix n 2 ?Ys"
    using X by (simp add: is_matrix_def list_all_iff)
  have entry: "?Ys ! i ! k = dot (Xs ! i) (column evecs k)" if "i < n" "k < 2" for i k
  proof -
    have "i < length Xs" using X that by (simp add: is_matrix_def)
    then have "?Ys ! i ! k = dot (Xs ! i) (column (W evecs) k)"
      using that by simp
    then show ?thesis using column_W [OF V that(2)] by simp
  qed
  show ?thesis using eq shape entry by blast
qed

lemma sample_evecs_matrix: "is_matrix 3 3 sample_evecs"
  by (simp add: is_matrix_def sample_evecs_def)

lemma sample_std_matrix: "is_matrix 5 3 (X_std sample)"
  by (simp add: sample_std is_matrix_def)

lemma sample_projection: "Y (X_std sample) sample_evecs = Inr sample_Y"
  by (simp add: Y_def W_def matmul_def sample_std sample_evecs_def sample_Y_def ncols_def
      column_def dot_def upt_rec field_simps)

lemma Y_sums:
  assumes X: "is_matrix n d Xs" and n: "0 < n"
    and V: "is_matrix d d evecs" and d: "2 \<le> d"
  shows "\<exists>Ys. Y Xs evecs = Inr Ys \<and> length Ys = n \<and> (\<forall>i<n. length (Ys ! i) = 2) \<and>
           (\<forall>i<n. \<forall>k<2. Ys ! i ! k = (\<Sum>j<d. Xs ! i ! j * evecs ! j ! k))"
proof -
  obtain Ys where Ys: "Y Xs evecs = Inr Ys" and sh: "is_matrix n 2 Ys"
    and ent: "\<forall>i<n. \<forall>k<2. Ys ! i ! k = dot (Xs ! i) (column evecs k)"
    using Y_entries [OF X n V d] by blast
  have lenV: "length evecs = d" using V by (simp add: is_matrix_def)
  have "Ys ! i ! k = (\<Sum>j<d. Xs ! i ! j * evecs ! j ! k)" if i: "i < n" and k: "k < 2" for i k
  proof -
    have "Ys ! i ! k = dot (Xs ! i) (column evecs k)" using ent i k by simp
    also have "\<dots> = (\<Sum>j<d. Xs ! i ! j * evecs ! j ! k)"
      using dot_sum [of "Xs ! i" "column evecs k"] is_matrix_row [OF X i] lenV
      by (simp add: column_def)
    finally show ?thesis .
  qed
  moreover have "length Ys = n" "\<forall>i<n. length (Ys ! i) = 2"
    using sh is_matrix_row [OF sh] by (simp_all add: is_matrix_def)
  ultimately show ?thesis using Ys by blast
qed

text \<open>
  Claim C7. Projecting the standardized table onto the projection matrix is the matrix
  product of the \<open>N \<times> D\<close> table with the \<open>D \<times> 2\<close> matrix of the first two eigenvector
  columns: the product is defined, it has \<open>N\<close> rows of length 2, and its entry \<open>(i, k)\<close>
  is the sum over the features \<open>j\<close> of entry \<open>j\<close> of observation \<open>i\<close> times entry \<open>j\<close> of
  eigenvector column \<open>k\<close>.
\<close>

theorem projection_is_matrix_product:
  assumes "length Xs = n" and "\<forall>r\<in>set Xs. length r = d" and "0 < n"
    and "length evecs = d" and "\<forall>r\<in>set evecs. length r = d" and "2 \<le> d"
  shows "\<exists>Ys. Y Xs evecs = Inr Ys \<and> length Ys = n \<and> (\<forall>i<n. length (Ys ! i) = 2) \<and>
           (\<forall>i<n. \<forall>k<2. Ys ! i ! k = (\<Sum>j<d. Xs ! i ! j * evecs ! j ! k))"
proof -
  have X: "is_matrix n d Xs" and V: "is_matrix d d evecs"
    using assms by (simp_all add: is_matrix_def list_all_iff)
  show ?thesis using X \<open>0 < n\<close> V \<open>2 \<le> d\<close> by (rule Y_sums)
qed

theorem projection_is_matrix_product_witness:
  "length (X_std sample) = 5 \<and> list_all (\<lambda>r. length r = 3) (X_std sample) \<and>
   length sample_evecs = 3 \<and> list_all (\<lambda>r. length r = 3) sample_evecs \<and>
   Y (X_std sample) sample_evecs =
     Inr [[- (3 / sqrt 2), 0], [0, - (1 / sqrt 2)], [0, 0], [2 / sqrt 2, - (1 / sqrt 2)],
          [1 / sqrt 2, 2 / sqrt 2]] \<and>
   (\<exists>Ys. Y (X_std sample) sample_evecs = Inr Ys \<and> length Ys = 5 \<and>
      (\<forall>i<5. length (Ys ! i) = 2) \<and>
      (\<forall>i<5. \<forall>k<2. Ys ! i ! k = (\<Sum>j<3. X_std sample ! i ! j * sample_evecs ! j ! k)))"
proof -
  have a: "length (X_std sample) = 5" "\<forall>r\<in>set (X_std sample). length r = 3"
    by (simp_all add: sample_std)
  have b: "length sample_evecs = 3" "\<forall>r\<in>set sample_evecs. length r = 3"
    by (simp_all add: sample_evecs_def)
  have "\<exists>Ys. Y (X_std sample) sample_evecs = Inr Ys \<and> length Ys = 5 \<and>
      (\<forall>i<5. length (Ys ! i) = 2) \<and>
      (\<forall>i<5. \<forall>k<2. Ys ! i ! k = (\<Sum>j<3. X_std sample ! i ! j * sample_evecs ! j ! k))"
    using projection_is_matrix_product [OF a(1) a(2) _ b(1) b(2)] by simp
  then show ?thesis
    using a b sample_projection by (simp add: list_all_iff sample_Y_def)
qed

text \<open>
  When the eigenvalues come in descending order, the first two columns are the ones
  with the two largest eigenvalues.
\<close>

lemma selects_largest_sorted:
  assumes "sorted_wrt (\<lambda>a b. b \<le> a) evals"
  shows "selects_largest k evals"
proof -
  have "evals ! j \<le> evals ! i" if "i < k" "k \<le> j" "j < length evals" for i j
    using assms that by (simp add: sorted_wrt_iff_nth_less)
  then show ?thesis by (simp add: selects_largest_def list_all_iff)
qed

text \<open>
  \<open>W\<close> is the first two columns of \<open>evecs\<close> in the order in which the
  eigendecomposition returns them; nothing in the program sorts the columns. Whether
  they are the eigenvectors with the two largest eigenvalues is therefore decided by
  that order. For the table \<open>sample\<close> and the eigendecomposition \<open>sample_evals\<close>,
  \<open>sample_evecs\<close> of its covariance matrix they are not: the second selected column has
  eigenvalue \<open>3/4\<close> and the column left out has \<open>5/4\<close>.
\<close>

lemma sample_first_two_columns:
  "eig_columns (\<Sigma> sample) sample_evals sample_evecs \<and> unit_columns sample_evecs \<and>
   W sample_evecs = [[1 / sqrt 2, 1 / sqrt 2], [1 / sqrt 2, - (1 / sqrt 2)], [0, 0]] \<and>
   sample_evals ! 1 = 3 / 4 \<and> sample_evals ! 2 = 5 / 4 \<and>
   \<not> selects_largest 2 sample_evals"
proof -
  have "W sample_evecs = [[1 / sqrt 2, 1 / sqrt 2], [1 / sqrt 2, - (1 / sqrt 2)], [0, 0]]"
    by (simp add: W_def sample_evecs_def)
  moreover have "\<not> selects_largest 2 sample_evals"
    by (simp add: selects_largest_def sample_evals_def upt_rec)
  moreover have "sample_evals ! 1 = 3 / 4 \<and> sample_evals ! 2 = 5 / 4"
    by (simp add: sample_evals_def)
  ultimately show ?thesis using sample_eig sample_unit by simp
qed

section \<open>The library PCA\<close>












lemma level_X_pca:
  "X_pca level level_components level_explained_variance =
     [[- (6 / (sqrt 2 * sqrt 7)), - (1 / sqrt 5), 0],
      [0, - (1 / sqrt 5), - (2 / (sqrt 2 * sqrt 3))],
      [0, 4 / sqrt 5, 0],
      [4 / (sqrt 2 * sqrt 7), - (1 / sqrt 5), - (2 / (sqrt 2 * sqrt 3))],
      [2 / (sqrt 2 * sqrt 7), - (1 / sqrt 5), 4 / (sqrt 2 * sqrt 3)]]"
  by (simp add: X_pca_def level_def level_components_def level_explained_variance_def
      pca_mean_def ncols_def column_def mean_def dot_def upt_rec field_simps)






text \<open>
  Equal standard deviations alone do not make the coordinates agree column by column:
  for \<open>level\<close> the second library coordinate belongs to the eigenvalue \<open>5/4\<close> and the
  second hand-rolled coordinate to \<open>3/4\<close>.
\<close>

lemma level_second_coordinate:
  "\<not> agree_up_to_scale (column (X_pca level level_components level_explained_variance) 1)
       (column sample_Y 1)"
proof
  assume "agree_up_to_scale (column (X_pca level level_components level_explained_variance) 1)
            (column sample_Y 1)"
  then obtain c where
    "column (X_pca level level_components level_explained_variance) 1
       = map (\<lambda>y. c * y) (column sample_Y 1)"
    by (auto simp: agree_up_to_scale_def)
  then have "column (X_pca level level_components level_explained_variance) 1 ! 0
             = map (\<lambda>y. c * y) (column sample_Y 1) ! 0" by simp
  then show False by (simp add: level_X_pca column_def sample_Y_def)
qed



end
